theory Spec2Isabelle
  imports Main
begin

section \<open>SimpleVector: a growable array over an owned raw buffer\<close>

text \<open>
  The development embeds \<^verbatim>\<open>simple-vector/simple_vector.h\<close>. A container is a record of
  its three data members. The source names them \<^verbatim>\<open>array_\<close>, \<^verbatim>\<open>size_\<close> and
  \<^verbatim>\<open>capacity_\<close>; a trailing underscore is not a legal name here, so the fields are
  \<open>array_m\<close>, \<open>size_m\<close> and \<open>capacity_m\<close>.

  Every way the C++ code can leave the normal path is a value of \<open>error\<close>:
  \<^item> \<open>out_of_range\<close>: the exception thrown by \<^verbatim>\<open>At\<close>;
  \<^item> \<open>bad_alloc\<close>: the buffer owner could not obtain storage;
  \<^item> \<open>assertion_failure\<close>: an \<^verbatim>\<open>assert\<close> of the source does not hold;
  \<^item> \<open>buffer_overrun\<close>: a slot outside the allocated buffer is read or written
    (undefined behaviour in C++);
  \<^item> \<open>invalid_range\<close>: an iterator range \<open>[first, last)\<close> with its end before
    its start is handed to a standard algorithm (undefined behaviour in C++).
\<close>

datatype error = out_of_range | bad_alloc | assertion_failure | buffer_overrun | invalid_range

text \<open>
  \<^verbatim>\<open>size_t\<close> is taken to be 64 bits wide. Sizes are natural numbers and every
  \<^verbatim>\<open>size_t\<close> operation of the source that can wrap is written with \<open>mod SIZE_MOD\<close>.
\<close>

definition SIZE_MOD :: nat where
  "SIZE_MOD = 2 ^ 64"

subsection \<open>The raw buffer owner\<close>

text \<open>
  Modelled from the spec: the class template \<^verbatim>\<open>ArrayPtr\<close> of \<^verbatim>\<open>array_ptr.h\<close>, which the
  container includes and which is not among the sources. The spec describes it as
  the raw buffer owner: given a requested slot count it exclusively owns that many
  contiguous slots, supports index-based read and write, swaps ownership with another
  instance, and fails with an allocation error if storage cannot be obtained.

  A buffer is the list of its slots, so the length of the list is the number of slots
  really allocated. The content of a freshly allocated slot is not fixed by the spec
  ("unspecified/default content"); it is the parameter \<open>z\<close>. Storage for \<open>n\<close> slots can
  be obtained exactly when \<open>n \<le> max_alloc\<close>, the largest array a 64-bit platform can
  allocate.
\<close>

type_synonym 'a ArrayPtr = "'a list"

definition max_alloc :: nat where
  "max_alloc = 2 ^ 63 - 1"

definition ArrayPtr_new :: "'a \<Rightarrow> nat \<Rightarrow> error + 'a ArrayPtr" where
  "ArrayPtr_new z n = (if n \<le> max_alloc then Inr (replicate n z) else Inl bad_alloc)"

definition ArrayPtr_read :: "'a ArrayPtr \<Rightarrow> nat \<Rightarrow> error + 'a" where
  "ArrayPtr_read a i = (if i < length a then Inr (a ! i) else Inl buffer_overrun)"

definition ArrayPtr_write :: "'a ArrayPtr \<Rightarrow> nat \<Rightarrow> 'a \<Rightarrow> error + 'a ArrayPtr" where
  "ArrayPtr_write a i x = (if i < length a then Inr (a[i := x]) else Inl buffer_overrun)"

subsection \<open>The standard algorithms used by the container\<close>

text \<open>
  Iterators are raw pointers into the buffer; they are modelled as slot offsets from
  \<^verbatim>\<open>array_.Get()\<close>. The algorithms are the element-by-element loops of the standard
  library. A moved-from slot keeps its value (as for a trivially copyable element
  type); no property below depends on the content of a moved-from slot.

  \<open>move_loop\<close> is \<^verbatim>\<open>std::move(first, last, d_first)\<close> (and \<^verbatim>\<open>std::copy\<close>) from one
  buffer into a different one; \<open>move_loop_self\<close> is the same loop when source and
  destination are the same buffer, so that a write is seen by later reads;
  \<open>move_backward_loop\<close> is \<^verbatim>\<open>std::move_backward(first, last, d_last)\<close> inside one
  buffer; \<open>fill_loop\<close> is \<^verbatim>\<open>std::fill(first, last, value)\<close>, and also the
  \<^verbatim>\<open>std::for_each\<close> of \<^verbatim>\<open>Resize\<close>, whose function object assigns \<^verbatim>\<open>Type()\<close> to each
  element.
\<close>

function move_loop :: "'a list \<Rightarrow> nat \<Rightarrow> nat \<Rightarrow> 'a list \<Rightarrow> nat \<Rightarrow> error + 'a list" where
  "move_loop src first last' dst d =
     (if last' \<le> first then Inr dst
      else if length src \<le> first \<or> length dst \<le> d then Inl buffer_overrun
      else move_loop src (first + 1) last' (dst[d := src ! first]) (d + 1))"
  by pat_completeness auto
termination
  by (relation "measure (\<lambda>(src, first, last', dst, d). last' - first)") auto

definition std_move :: "'a list \<Rightarrow> nat \<Rightarrow> nat \<Rightarrow> 'a list \<Rightarrow> nat \<Rightarrow> error + 'a list" where
  "std_move src first last' dst d =
     (if last' < first then Inl invalid_range else move_loop src first last' dst d)"

function move_loop_self :: "'a list \<Rightarrow> nat \<Rightarrow> nat \<Rightarrow> nat \<Rightarrow> error + 'a list" where
  "move_loop_self buf first last' d =
     (if last' \<le> first then Inr buf
      else if length buf \<le> first \<or> length buf \<le> d then Inl buffer_overrun
      else move_loop_self (buf[d := buf ! first]) (first + 1) last' (d + 1))"
  by pat_completeness auto
termination
  by (relation "measure (\<lambda>(buf, first, last', d). last' - first)") auto

definition std_move_self :: "'a list \<Rightarrow> nat \<Rightarrow> nat \<Rightarrow> nat \<Rightarrow> error + 'a list" where
  "std_move_self buf first last' d =
     (if last' < first then Inl invalid_range else move_loop_self buf first last' d)"

function move_backward_loop :: "'a list \<Rightarrow> nat \<Rightarrow> nat \<Rightarrow> nat \<Rightarrow> error + 'a list" where
  "move_backward_loop buf first last' d_last =
     (if last' \<le> first then Inr buf
      else if length buf < last' \<or> length buf < d_last \<or> d_last = 0 then Inl buffer_overrun
      else move_backward_loop (buf[d_last - 1 := buf ! (last' - 1)]) first (last' - 1) (d_last - 1))"
  by pat_completeness auto
termination
  by (relation "measure (\<lambda>(buf, first, last', d_last). last' - first)") auto

definition std_move_backward :: "'a list \<Rightarrow> nat \<Rightarrow> nat \<Rightarrow> nat \<Rightarrow> error + 'a list" where
  "std_move_backward buf first last' d_last =
     (if last' < first then Inl invalid_range else move_backward_loop buf first last' d_last)"

function fill_loop :: "'a list \<Rightarrow> nat \<Rightarrow> nat \<Rightarrow> 'a \<Rightarrow> error + 'a list" where
  "fill_loop buf first last' x =
     (if last' \<le> first then Inr buf
      else if length buf \<le> first then Inl buffer_overrun
      else fill_loop (buf[first := x]) (first + 1) last' x)"
  by pat_completeness auto
termination
  by (relation "measure (\<lambda>(buf, first, last', x). last' - first)") auto

definition std_fill :: "'a list \<Rightarrow> nat \<Rightarrow> nat \<Rightarrow> 'a \<Rightarrow> error + 'a list" where
  "std_fill buf first last' x =
     (if last' < first then Inl invalid_range else fill_loop buf first last' x)"

text \<open>
  The loops are unfolded only on demand: their defining equations are not simplification
  rules.
\<close>

declare move_loop.simps [simp del]

declare move_loop_self.simps [simp del]

declare move_backward_loop.simps [simp del]

declare fill_loop.simps [simp del]

subsection \<open>The container\<close>

record 'a SimpleVector =
  array_m :: "'a ArrayPtr"
  size_m :: nat
  capacity_m :: nat

definition GetSize :: "'a SimpleVector \<Rightarrow> nat" where
  "GetSize v = size_m v"

definition GetCapacity :: "'a SimpleVector \<Rightarrow> nat" where
  "GetCapacity v = capacity_m v"

definition IsEmpty :: "'a SimpleVector \<Rightarrow> bool" where
  "IsEmpty v = (size_m v = 0)"

text \<open>
  \<open>allocated v\<close> is the number of slots the owned buffer really has, and
  \<open>elems v\<close> the logical sequence: the slots \<open>[0, size)\<close>.
\<close>

definition allocated :: "'a SimpleVector \<Rightarrow> nat" where
  "allocated v = length (array_m v)"

definition elems :: "'a SimpleVector \<Rightarrow> 'a list" where
  "elems v = take (size_m v) (array_m v)"

subsubsection \<open>Constructors\<close>

text \<open>
  The element type's value-initialised object \<^verbatim>\<open>Type()\<close> is the parameter \<open>dflt\<close>.
  \<^verbatim>\<open>ReserveProxyObj\<close> only carries the requested capacity, so the reserving constructor
  takes that number.
\<close>

definition SimpleVector_default :: "'a SimpleVector" where
  "SimpleVector_default = \<lparr>array_m = [], size_m = 0, capacity_m = 0\<rparr>"

definition SimpleVector_fill :: "'a \<Rightarrow> nat \<Rightarrow> 'a \<Rightarrow> error + 'a SimpleVector" where
  "SimpleVector_fill z n value =
     (case ArrayPtr_new z n of
        Inl e \<Rightarrow> Inl e
      | Inr a \<Rightarrow>
          (case std_fill a 0 n value of
             Inl e \<Rightarrow> Inl e
           | Inr a' \<Rightarrow> Inr \<lparr>array_m = a', size_m = n, capacity_m = n\<rparr>))"

definition SimpleVector_size :: "'a \<Rightarrow> 'a \<Rightarrow> nat \<Rightarrow> error + 'a SimpleVector" where
  "SimpleVector_size z dflt n = SimpleVector_fill z n dflt"

definition SimpleVector_reserve :: "'a \<Rightarrow> nat \<Rightarrow> error + 'a SimpleVector" where
  "SimpleVector_reserve z capacity_to_reserve =
     (case ArrayPtr_new z capacity_to_reserve of
        Inl e \<Rightarrow> Inl e
      | Inr a \<Rightarrow> Inr \<lparr>array_m = a, size_m = 0, capacity_m = capacity_to_reserve\<rparr>)"

definition SimpleVector_init :: "'a \<Rightarrow> 'a list \<Rightarrow> error + 'a SimpleVector" where
  "SimpleVector_init z init =
     (case ArrayPtr_new z (length init) of
        Inl e \<Rightarrow> Inl e
      | Inr a \<Rightarrow>
          (case std_move init 0 (length init) a 0 of
             Inl e \<Rightarrow> Inl e
           | Inr a' \<Rightarrow> Inr \<lparr>array_m = a', size_m = length init, capacity_m = length init\<rparr>))"

definition SimpleVector_copy :: "'a \<Rightarrow> 'a SimpleVector \<Rightarrow> error + 'a SimpleVector" where
  "SimpleVector_copy z other =
     (case ArrayPtr_new z (GetCapacity other) of
        Inl e \<Rightarrow> Inl e
      | Inr a \<Rightarrow>
          (case std_move (array_m other) 0 (size_m other) a 0 of
             Inl e \<Rightarrow> Inl e
           | Inr a' \<Rightarrow>
               Inr \<lparr>array_m = a', size_m = GetSize other, capacity_m = GetCapacity other\<rparr>))"

text \<open>
  The move constructor returns the new object and what is left of \<open>other\<close>. Moving
  the buffer owner transfers the buffer and leaves the source owning no storage;
  \<^verbatim>\<open>std::exchange\<close> reads a member and stores 0 in it.
\<close>

definition SimpleVector_move :: "'a SimpleVector \<Rightarrow> 'a SimpleVector \<times> 'a SimpleVector" where
  "SimpleVector_move other =
     (\<lparr>array_m = array_m other, size_m = size_m other, capacity_m = capacity_m other\<rparr>,
      \<lparr>array_m = [], size_m = 0, capacity_m = 0\<rparr>)"

subsubsection \<open>swap and the assignment operators\<close>

definition swap :: "'a SimpleVector \<Rightarrow> 'a SimpleVector \<Rightarrow> 'a SimpleVector \<times> 'a SimpleVector" where
  "swap this other =
     (\<lparr>array_m = array_m other, size_m = size_m other, capacity_m = capacity_m other\<rparr>,
      \<lparr>array_m = array_m this, size_m = size_m this, capacity_m = capacity_m this\<rparr>)"

text \<open>
  The assignment operators take two objects that may be the same one, so they work on
  a store of containers indexed by address. The temporary \<^verbatim>\<open>tmp\<close> is a fresh local
  object outside the store; it is destroyed on return.

  In \<^verbatim>\<open>operator=(SimpleVector&& rhs)\<close> the initialiser of \<^verbatim>\<open>tmp\<close> is the named
  reference \<^verbatim>\<open>rhs\<close>, an lvalue, so overload resolution selects the copy constructor.
\<close>

type_synonym 'a store = "nat \<Rightarrow> 'a SimpleVector"

definition copy_assign :: "'a \<Rightarrow> 'a store \<Rightarrow> nat \<Rightarrow> nat \<Rightarrow> error + 'a store" where
  "copy_assign z h this rhs =
     (if this = rhs then Inr h
      else (case SimpleVector_copy z (h rhs) of
              Inl e \<Rightarrow> Inl e
            | Inr tmp \<Rightarrow> Inr (h(this := fst (swap (h this) tmp)))))"

definition move_assign :: "'a \<Rightarrow> 'a store \<Rightarrow> nat \<Rightarrow> nat \<Rightarrow> error + 'a store" where
  "move_assign z h this rhs =
     (case SimpleVector_copy z (h rhs) of
        Inl e \<Rightarrow> Inl e
      | Inr tmp \<Rightarrow> Inr (h(this := fst (swap (h this) tmp))))"

subsubsection \<open>Modifiers\<close>

text \<open>
  \<open>grown_capacity\<close> is the expression
  \<^verbatim>\<open>(capacity_ == 0) ? 1 : capacity_ * 2\<close> of \<^verbatim>\<open>PushBack\<close> and \<^verbatim>\<open>Insert\<close>.
\<close>

definition grown_capacity :: "nat \<Rightarrow> nat" where
  "grown_capacity c = (if c = 0 then 1 else (c * 2) mod SIZE_MOD)"

definition PushBack :: "'a \<Rightarrow> 'a \<Rightarrow> 'a SimpleVector \<Rightarrow> error + 'a SimpleVector" where
  "PushBack z item v =
     (case (if size_m v = capacity_m v then
              (let new_capacity = grown_capacity (capacity_m v) in
               case ArrayPtr_new z new_capacity of
                 Inl e \<Rightarrow> Inl e
               | Inr new_array \<Rightarrow>
                   (case std_move (array_m v) 0 (size_m v) new_array 0 of
                      Inl e \<Rightarrow> Inl e
                    | Inr new_array' \<Rightarrow>
                        Inr (v\<lparr>array_m := new_array', capacity_m := new_capacity\<rparr>)))
            else Inr v) of
        Inl e \<Rightarrow> Inl e
      | Inr v1 \<Rightarrow>
          (case ArrayPtr_write (array_m v1) (size_m v1) item of
             Inl e \<Rightarrow> Inl e
           | Inr a \<Rightarrow> Inr (v1\<lparr>array_m := a, size_m := (size_m v1 + 1) mod SIZE_MOD\<rparr>)))"

text \<open>
  \<^verbatim>\<open>Insert\<close> and \<^verbatim>\<open>Erase\<close> take the position as the offset \<^verbatim>\<open>pos - begin()\<close> and return
  the offset of the iterator they return together with the new state. In the shifting
  branch of \<^verbatim>\<open>Insert\<close> the range handed to \<^verbatim>\<open>std::move_backward\<close> ends at
  \<^verbatim>\<open>begin() + size_ - 1\<close> with \<^verbatim>\<open>size_\<close> already incremented; should the increment wrap
  to 0 this is a pointer before the buffer, which is reported as \<open>invalid_range\<close>.
  In \<^verbatim>\<open>Erase\<close> the decrement \<^verbatim>\<open>--size_\<close> is the addition of \<open>SIZE_MOD - 1\<close> modulo
  \<open>SIZE_MOD\<close>.
\<close>

definition Insert :: "'a \<Rightarrow> nat \<Rightarrow> 'a \<Rightarrow> 'a SimpleVector \<Rightarrow> error + (nat \<times> 'a SimpleVector)" where
  "Insert z index_pos value v =
     (if size_m v = capacity_m v then
        (let new_capacity = grown_capacity (capacity_m v) in
         case ArrayPtr_new z new_capacity of
           Inl e \<Rightarrow> Inl e
         | Inr a0 \<Rightarrow>
             (case std_move (array_m v) 0 index_pos a0 0 of
                Inl e \<Rightarrow> Inl e
              | Inr a1 \<Rightarrow>
                  (case ArrayPtr_write a1 index_pos value of
                     Inl e \<Rightarrow> Inl e
                   | Inr a2 \<Rightarrow>
                       (case std_move (array_m v) index_pos (size_m v) a2 (index_pos + 1) of
                          Inl e \<Rightarrow> Inl e
                        | Inr a3 \<Rightarrow>
                            Inr (index_pos,
                                 \<lparr>array_m = a3,
                                  size_m = (size_m v + 1) mod SIZE_MOD,
                                  capacity_m = new_capacity\<rparr>)))))
      else
        (let new_size = (size_m v + 1) mod SIZE_MOD in
         if new_size = 0 then Inl invalid_range
         else
           (case std_move_backward (array_m v) index_pos (new_size - 1) new_size of
              Inl e \<Rightarrow> Inl e
            | Inr a1 \<Rightarrow>
                (case ArrayPtr_write a1 index_pos value of
                   Inl e \<Rightarrow> Inl e
                 | Inr a2 \<Rightarrow> Inr (index_pos, v\<lparr>array_m := a2, size_m := new_size\<rparr>)))))"

definition PopBack :: "'a SimpleVector \<Rightarrow> error + 'a SimpleVector" where
  "PopBack v =
     (if 0 < size_m v then Inr (v\<lparr>size_m := size_m v - 1\<rparr>) else Inl assertion_failure)"

definition Erase :: "nat \<Rightarrow> 'a SimpleVector \<Rightarrow> error + (nat \<times> 'a SimpleVector)" where
  "Erase index_pos v =
     (case std_move_self (array_m v) (index_pos + 1) (size_m v) index_pos of
        Inl e \<Rightarrow> Inl e
      | Inr a \<Rightarrow>
          Inr (index_pos,
               v\<lparr>array_m := a, size_m := (size_m v + (SIZE_MOD - 1)) mod SIZE_MOD\<rparr>))"

definition Reserve :: "'a \<Rightarrow> nat \<Rightarrow> 'a SimpleVector \<Rightarrow> error + 'a SimpleVector" where
  "Reserve z new_capacity v =
     (if capacity_m v < new_capacity then
        (case ArrayPtr_new z new_capacity of
           Inl e \<Rightarrow> Inl e
         | Inr new_array \<Rightarrow>
             (case std_move (array_m v) 0 (size_m v) new_array 0 of
                Inl e \<Rightarrow> Inl e
              | Inr new_array' \<Rightarrow>
                  Inr (v\<lparr>array_m := new_array', capacity_m := new_capacity\<rparr>)))
      else Inr v)"

definition Clear :: "'a SimpleVector \<Rightarrow> 'a SimpleVector" where
  "Clear v = v\<lparr>size_m := 0\<rparr>"

definition Resize :: "'a \<Rightarrow> 'a \<Rightarrow> nat \<Rightarrow> 'a SimpleVector \<Rightarrow> error + 'a SimpleVector" where
  "Resize z dflt new_size v =
     (if capacity_m v < new_size then
        (case ArrayPtr_new z new_size of
           Inl e \<Rightarrow> Inl e
         | Inr a0 \<Rightarrow>
             (case std_move (array_m v) 0 (size_m v) a0 0 of
                Inl e \<Rightarrow> Inl e
              | Inr a1 \<Rightarrow>
                  (case std_fill a1 (size_m v) new_size dflt of
                     Inl e \<Rightarrow> Inl e
                   | Inr a2 \<Rightarrow>
                       Inr \<lparr>array_m = a2,
                            size_m = new_size,
                            capacity_m = max new_size ((capacity_m v * 2) mod SIZE_MOD)\<rparr>)))
      else if size_m v < new_size then
        (case std_fill (array_m v) (size_m v) new_size dflt of
           Inl e \<Rightarrow> Inl e
         | Inr a \<Rightarrow> Inr (v\<lparr>array_m := a, size_m := new_size\<rparr>))
      else Inr (v\<lparr>size_m := new_size\<rparr>))"

subsubsection \<open>Element access\<close>

definition subscript :: "nat \<Rightarrow> 'a SimpleVector \<Rightarrow> error + 'a" where
  "subscript index v =
     (if 0 < size_m v \<and> index < size_m v then ArrayPtr_read (array_m v) index
      else Inl assertion_failure)"

definition At :: "nat \<Rightarrow> 'a SimpleVector \<Rightarrow> error + 'a" where
  "At index v =
     (if size_m v \<le> index then Inl out_of_range else ArrayPtr_read (array_m v) index)"

subsubsection \<open>Relational operators\<close>

text \<open>
  \<open>equal_loop\<close> and \<open>std_equal\<close> are the four-iterator \<^verbatim>\<open>std::equal\<close> on random-access
  iterators: ranges of different length are unequal without any element being read,
  otherwise the elements are compared pairwise with \<^verbatim>\<open>==\<close>.
  \<open>lexicographical_compare_loop\<close> is \<^verbatim>\<open>std::lexicographical_compare\<close>: it walks both
  ranges while neither is exhausted, decides at the first pair ordered by \<^verbatim>\<open><\<close> in
  either direction, and otherwise answers whether the first range ended and the second
  did not.
\<close>

function equal_loop :: "'a list \<Rightarrow> nat \<Rightarrow> nat \<Rightarrow> 'a list \<Rightarrow> nat \<Rightarrow> error + bool" where
  "equal_loop a first1 last1 b first2 =
     (if last1 \<le> first1 then Inr True
      else if length a \<le> first1 \<or> length b \<le> first2 then Inl buffer_overrun
      else if a ! first1 = b ! first2 then equal_loop a (first1 + 1) last1 b (first2 + 1)
      else Inr False)"
  by pat_completeness auto
termination
  by (relation "measure (\<lambda>(a, first1, last1, b, first2). last1 - first1)") auto

definition std_equal ::
  "'a list \<Rightarrow> nat \<Rightarrow> nat \<Rightarrow> 'a list \<Rightarrow> nat \<Rightarrow> nat \<Rightarrow> error + bool" where
  "std_equal a first1 last1 b first2 last2 =
     (if last1 < first1 \<or> last2 < first2 then Inl invalid_range
      else if last1 - first1 = last2 - first2 then equal_loop a first1 last1 b first2
      else Inr False)"

function lexicographical_compare_loop ::
  "('a::ord) list \<Rightarrow> nat \<Rightarrow> nat \<Rightarrow> 'a list \<Rightarrow> nat \<Rightarrow> nat \<Rightarrow> error + bool" where
  "lexicographical_compare_loop a first1 last1 b first2 last2 =
     (if last1 \<le> first1 \<or> last2 \<le> first2 then Inr (last1 \<le> first1 \<and> first2 < last2)
      else if length a \<le> first1 \<or> length b \<le> first2 then Inl buffer_overrun
      else if a ! first1 < b ! first2 then Inr True
      else if b ! first2 < a ! first1 then Inr False
      else lexicographical_compare_loop a (first1 + 1) last1 b (first2 + 1) last2)"
  by pat_completeness auto
termination
  by (relation "measure (\<lambda>(a, first1, last1, b, first2, last2). last1 - first1)") auto

definition std_lexicographical_compare ::
  "('a::ord) list \<Rightarrow> nat \<Rightarrow> nat \<Rightarrow> 'a list \<Rightarrow> nat \<Rightarrow> nat \<Rightarrow> error + bool" where
  "std_lexicographical_compare a first1 last1 b first2 last2 =
     (if last1 < first1 \<or> last2 < first2 then Inl invalid_range
      else lexicographical_compare_loop a first1 last1 b first2 last2)"

declare equal_loop.simps [simp del]

declare lexicographical_compare_loop.simps [simp del]

definition operator_eq :: "'a SimpleVector \<Rightarrow> 'a SimpleVector \<Rightarrow> error + bool" where
  "operator_eq lhs rhs =
     std_equal (array_m lhs) 0 (size_m lhs) (array_m rhs) 0 (size_m rhs)"

definition operator_ne :: "'a SimpleVector \<Rightarrow> 'a SimpleVector \<Rightarrow> error + bool" where
  "operator_ne lhs rhs =
     (case operator_eq lhs rhs of Inl e \<Rightarrow> Inl e | Inr r \<Rightarrow> Inr (\<not> r))"

definition operator_lt :: "('a::ord) SimpleVector \<Rightarrow> 'a SimpleVector \<Rightarrow> error + bool" where
  "operator_lt lhs rhs =
     std_lexicographical_compare (array_m lhs) 0 (size_m lhs) (array_m rhs) 0 (size_m rhs)"

definition operator_le :: "('a::ord) SimpleVector \<Rightarrow> 'a SimpleVector \<Rightarrow> error + bool" where
  "operator_le lhs rhs =
     (case operator_lt lhs rhs of
        Inl e \<Rightarrow> Inl e
      | Inr r \<Rightarrow> if r then Inr True else operator_eq lhs rhs)"

definition operator_gt :: "('a::ord) SimpleVector \<Rightarrow> 'a SimpleVector \<Rightarrow> error + bool" where
  "operator_gt lhs rhs = operator_lt rhs lhs"

definition operator_ge :: "('a::ord) SimpleVector \<Rightarrow> 'a SimpleVector \<Rightarrow> error + bool" where
  "operator_ge lhs rhs =
     (case operator_gt lhs rhs of
        Inl e \<Rightarrow> Inl e
      | Inr r \<Rightarrow> if r then Inr True else operator_eq lhs rhs)"

section \<open>What the standard algorithms compute\<close>

text \<open>
  On ranges that lie inside their buffers each loop returns, and its result is a
  splice of the buffers involved.
\<close>

lemma move_loop_eq:
  "first \<le> last' \<Longrightarrow> last' \<le> length src \<Longrightarrow> d + (last' - first) \<le> length dst \<Longrightarrow>
   move_loop src first last' dst d =
     Inr (take d dst @ drop first (take last' src) @ drop (d + (last' - first)) dst)"
proof (induction src first last' dst d rule: move_loop.induct)
  case (1 src first last' dst d)
  show ?case
  proof (cases "last' \<le> first")
    case True
    with "1.prems" show ?thesis by (simp add: move_loop.simps)
  next
    case False
    then have lt: "first < last'" by simp
    with "1.prems" have fs: "first < length src" and dd: "d < length dst" by simp_all
    let ?dst = "dst[d := src ! first]"
    have IH: "move_loop src (first + 1) last' ?dst (d + 1) =
      Inr (take (d + 1) ?dst @ drop (first + 1) (take last' src) @ drop (d + 1 + (last' - (first + 1))) ?dst)"
      using "1.IH" False fs dd "1.prems" by simp
    have a: "take (d + 1) ?dst = take d dst @ [src ! first]"
      using dd by (simp add: take_Suc_conv_app_nth)
    have ix: "d + 1 + (last' - (first + 1)) = d + (last' - first)"
      using lt by arith
    have b: "drop (d + 1 + (last' - (first + 1))) ?dst = drop (d + (last' - first)) dst"
      unfolding ix using lt by simp
    have c: "drop first (take last' src) = src ! first # drop (first + 1) (take last' src)"
      using lt fs "1.prems" Cons_nth_drop_Suc [of first "take last' src"] by simp
    have "move_loop src first last' dst d = move_loop src (first + 1) last' ?dst (d + 1)"
      using False fs dd by (subst move_loop.simps) simp
    then show ?thesis using IH a b c by simp
  qed
qed

lemma move_loop_self_eq:
  "first \<le> last' \<Longrightarrow> last' \<le> length buf \<Longrightarrow> d \<le> first \<Longrightarrow>
   move_loop_self buf first last' d =
     Inr (take d buf @ drop first (take last' buf) @ drop (d + (last' - first)) buf)"
proof (induction buf first last' d rule: move_loop_self.induct)
  case (1 buf first last' d)
  show ?case
  proof (cases "last' \<le> first")
    case True
    with "1.prems" have "last' = first" by simp
    then show ?thesis by (simp add: move_loop_self.simps)
  next
    case False
    then have lt: "first < last'" by simp
    with "1.prems" have fs: "first < length buf" and dd: "d < length buf" by simp_all
    let ?buf = "buf[d := buf ! first]"
    have IH: "move_loop_self ?buf (first + 1) last' (d + 1) =
      Inr (take (d + 1) ?buf @ drop (first + 1) (take last' ?buf) @ drop (d + 1 + (last' - (first + 1))) ?buf)"
      using "1.IH" False fs dd "1.prems" by simp
    have a: "take (d + 1) ?buf = take d buf @ [buf ! first]"
      using dd by (simp add: take_Suc_conv_app_nth)
    have ix: "d + 1 + (last' - (first + 1)) = d + (last' - first)"
      using lt by arith
    have b: "drop (d + 1 + (last' - (first + 1))) ?buf = drop (d + (last' - first)) buf"
      unfolding ix using lt by simp
    have c: "drop first (take last' buf) = buf ! first # drop (first + 1) (take last' buf)"
      using lt fs "1.prems" Cons_nth_drop_Suc [of first "take last' buf"] by simp
    have e: "drop (first + 1) (take last' ?buf) = drop (first + 1) (take last' buf)"
      using "1.prems" by (simp add: take_update_swap)
    have "move_loop_self buf first last' d = move_loop_self ?buf (first + 1) last' (d + 1)"
      using False fs dd by (subst move_loop_self.simps) simp
    then show ?thesis using IH a b c e by simp
  qed
qed

lemma move_backward_loop_eq:
  "first \<le> last' \<Longrightarrow> last' \<le> d_last \<Longrightarrow> d_last \<le> length buf \<Longrightarrow>
   move_backward_loop buf first last' d_last =
     Inr (take (d_last - (last' - first)) buf @ drop first (take last' buf) @ drop d_last buf)"
proof (induction buf first last' d_last rule: move_backward_loop.induct)
  case (1 buf first last' d_last)
  show ?case
  proof (cases "last' \<le> first")
    case True
    with "1.prems" have "last' = first" by simp
    then show ?thesis by (simp add: move_backward_loop.simps)
  next
    case False
    then have lt: "first < last'" by simp
    with "1.prems" have ll: "last' - 1 < length buf" and dd: "d_last - 1 < length buf"
      and dpos: "0 < d_last" and lpos: "0 < last'" by simp_all
    let ?buf = "buf[d_last - 1 := buf ! (last' - 1)]"
    have IH: "move_backward_loop ?buf first (last' - 1) (d_last - 1) =
      Inr (take (d_last - 1 - (last' - 1 - first)) ?buf @ drop first (take (last' - 1) ?buf)
           @ drop (d_last - 1) ?buf)"
      using "1.IH" False "1.prems" by simp
    have ix: "d_last - 1 - (last' - 1 - first) = d_last - (last' - first)"
      using lt "1.prems" by arith
    have a: "take (d_last - 1 - (last' - 1 - first)) ?buf = take (d_last - (last' - first)) buf"
      unfolding ix using lt "1.prems" by simp
    have b: "take (last' - 1) ?buf = take (last' - 1) buf"
      using "1.prems" by simp
    have c: "drop (d_last - 1) ?buf = buf ! (last' - 1) # drop d_last buf"
      using dd dpos by (simp add: drop_update_swap Cons_nth_drop_Suc [symmetric] upd_conv_take_nth_drop)
    have "take last' buf = take (last' - 1) buf @ [buf ! (last' - 1)]"
      using ll lpos take_Suc_conv_app_nth [of "last' - 1" buf] by simp
    then have e: "drop first (take last' buf) = drop first (take (last' - 1) buf) @ [buf ! (last' - 1)]"
      using lt ll by simp
    have "move_backward_loop buf first last' d_last =
          move_backward_loop ?buf first (last' - 1) (d_last - 1)"
      using False "1.prems" dpos by (subst move_backward_loop.simps) simp
    then show ?thesis using IH a b c e by simp
  qed
qed

lemma fill_loop_eq:
  "first \<le> last' \<Longrightarrow> last' \<le> length buf \<Longrightarrow>
   fill_loop buf first last' x =
     Inr (take first buf @ replicate (last' - first) x @ drop last' buf)"
proof (induction buf first last' x rule: fill_loop.induct)
  case (1 buf first last' x)
  show ?case
  proof (cases "last' \<le> first")
    case True
    with "1.prems" have "last' = first" by simp
    then show ?thesis by (simp add: fill_loop.simps)
  next
    case False
    then have lt: "first < last'" by simp
    with "1.prems" have fs: "first < length buf" by simp
    let ?buf = "buf[first := x]"
    have IH: "fill_loop ?buf (first + 1) last' x =
      Inr (take (first + 1) ?buf @ replicate (last' - (first + 1)) x @ drop last' ?buf)"
      using "1.IH" False fs "1.prems" by simp
    have a: "take (first + 1) ?buf = take first buf @ [x]"
      using fs by (simp add: take_Suc_conv_app_nth)
    have b: "drop last' ?buf = drop last' buf"
      using lt by simp
    have c: "replicate (last' - first) x = x # replicate (last' - (first + 1)) x"
      using lt by (simp add: Suc_diff_Suc flip: replicate_Suc)
    have "fill_loop buf first last' x = fill_loop ?buf (first + 1) last' x"
      using False fs by (subst fill_loop.simps) simp
    then show ?thesis using IH a b c by simp
  qed
qed

lemma replicate_numeral: "replicate (numeral k) x = x # replicate (pred_numeral k) x"
  by (simp add: numeral_eq_Suc)

lemma ArrayPtr_new_ok: "n \<le> max_alloc \<Longrightarrow> ArrayPtr_new z n = Inr (replicate n z)"
  by (simp add: ArrayPtr_new_def)

lemma std_move_eq:
  "first \<le> last' \<Longrightarrow> last' \<le> length src \<Longrightarrow> d + (last' - first) \<le> length dst \<Longrightarrow>
   std_move src first last' dst d =
     Inr (take d dst @ drop first (take last' src) @ drop (d + (last' - first)) dst)"
  by (simp add: std_move_def move_loop_eq)

lemma std_move_self_eq:
  "first \<le> last' \<Longrightarrow> last' \<le> length buf \<Longrightarrow> d \<le> first \<Longrightarrow>
   std_move_self buf first last' d =
     Inr (take d buf @ drop first (take last' buf) @ drop (d + (last' - first)) buf)"
  by (simp add: std_move_self_def move_loop_self_eq)

lemma std_move_backward_eq:
  "first \<le> last' \<Longrightarrow> last' \<le> d_last \<Longrightarrow> d_last \<le> length buf \<Longrightarrow>
   std_move_backward buf first last' d_last =
     Inr (take (d_last - (last' - first)) buf @ drop first (take last' buf) @ drop d_last buf)"
  by (simp add: std_move_backward_def move_backward_loop_eq)

lemma std_fill_eq:
  "first \<le> last' \<Longrightarrow> last' \<le> length buf \<Longrightarrow>
   std_fill buf first last' x =
     Inr (take first buf @ replicate (last' - first) x @ drop last' buf)"
  by (simp add: std_fill_def fill_loop_eq)

section \<open>Construction by move\<close>

text \<open>
  C6. Move construction \<^verbatim>\<open>SimpleVector b(std::move(a))\<close>: the new object \<open>b\<close> has exactly
  the buffer, the size and the capacity that \<open>a\<close> had, and \<open>a\<close> is left with size 0,
  capacity 0 and no storage.
\<close>

theorem SimpleVector_move_steals:
  "fst (SimpleVector_move a) = a \<and>
   array_m (fst (SimpleVector_move a)) = array_m a \<and>
   GetSize (fst (SimpleVector_move a)) = GetSize a \<and>
   GetCapacity (fst (SimpleVector_move a)) = GetCapacity a \<and>
   GetSize (snd (SimpleVector_move a)) = 0 \<and>
   GetCapacity (snd (SimpleVector_move a)) = 0 \<and>
   allocated (snd (SimpleVector_move a)) = 0"
  by (simp add: SimpleVector_move_def GetSize_def GetCapacity_def allocated_def)

section \<open>Checked element access\<close>

text \<open>
  C7. For every container state, the empty one included, and every index \<open>i\<close>,
  \<^verbatim>\<open>At(i)\<close> raises the out-of-range error if and only if \<open>i \<ge> GetSize()\<close>. When
  \<open>i < GetSize()\<close> (and the logical range lies inside the owned buffer) it returns the
  element at position \<open>i\<close>. \<open>At\<close> has no write in its body: it is a function from the
  container to a result and leaves the container as it is.
\<close>

theorem At_checked:
  "(At i v = Inl out_of_range \<longleftrightarrow> GetSize v \<le> i) \<and>
   (i < GetSize v \<and> GetSize v \<le> allocated v \<longrightarrow> At i v = Inr (elems v ! i))"
  by (simp add: At_def ArrayPtr_read_def GetSize_def allocated_def elems_def)

theorem At_checked_witness:
  "(At 3 \<lparr>array_m = [10, 20, 30, 0::int], size_m = 3, capacity_m = 4\<rparr> = Inl out_of_range) \<and>
   (At 0 SimpleVector_default = (Inl out_of_range :: error + int)) \<and>
   At 1 \<lparr>array_m = [10, 20, 30, 0::int], size_m = 3, capacity_m = 4\<rparr> = Inr 20"
  using At_checked [of 3 "\<lparr>array_m = [10, 20, 30, 0::int], size_m = 3, capacity_m = 4\<rparr>"]
    At_checked [of 0 "SimpleVector_default :: int SimpleVector"]
    At_checked [of 1 "\<lparr>array_m = [10, 20, 30, 0::int], size_m = 3, capacity_m = 4\<rparr>"]
  by (simp add: GetSize_def allocated_def elems_def SimpleVector_default_def)

section \<open>Facts about allocation and size arithmetic\<close>

lemma max_alloc_less_SIZE_MOD: "n \<le> max_alloc \<Longrightarrow> n < SIZE_MOD"
  by (simp add: max_alloc_def SIZE_MOD_def)

lemma mod_SIZE_MOD_small: "n \<le> max_alloc \<Longrightarrow> n mod SIZE_MOD = n"
  by (simp add: max_alloc_less_SIZE_MOD)

lemma grown_capacity_eq:
  "max 1 (2 * c) \<le> max_alloc \<Longrightarrow> grown_capacity c = max 1 (2 * c)"
  using mod_SIZE_MOD_small [of "2 * c"]
  by (auto simp add: grown_capacity_def mult.commute)

lemma replicate_update_0: "0 < k \<Longrightarrow> (replicate k z)[0 := x] = x # replicate (k - 1) z"
  by (cases k) simp_all

lemma PushBack_grow_eq:
  assumes g: "grown_capacity c = n" and lt: "c < n" and alloc: "n \<le> max_alloc"
    and inside: "c \<le> length a"
  shows "PushBack z x \<lparr>array_m = a, size_m = c, capacity_m = c\<rparr> =
    Inr \<lparr>array_m = take c a @ x # replicate (n - Suc c) z, size_m = Suc c, capacity_m = n\<rparr>"
proof -
  have mv: "std_move a 0 c (replicate n z) 0 = Inr (take c a @ replicate (n - c) z)"
    using inside lt by (simp add: std_move_eq)
  have wr: "ArrayPtr_write (take c a @ replicate (n - c) z) c x =
      Inr (take c a @ x # replicate (n - Suc c) z)"
    using lt inside by (simp add: ArrayPtr_write_def list_update_append replicate_update_0)
  have "Suc c \<le> max_alloc"
    using lt alloc by simp
  then have sz: "Suc c mod SIZE_MOD = Suc c"
    by (rule mod_SIZE_MOD_small)
  show ?thesis
    by (simp add: PushBack_def g ArrayPtr_new_ok [OF alloc] mv wr sz)
qed

lemma SimpleVector_copy_eq:
  assumes "size_m v \<le> length (array_m v)" "size_m v \<le> capacity_m v" "capacity_m v \<le> max_alloc"
  shows "SimpleVector_copy z v =
    Inr \<lparr>array_m = take (size_m v) (array_m v) @ replicate (capacity_m v - size_m v) z,
         size_m = size_m v, capacity_m = capacity_m v\<rparr>"
  using assms
  by (simp add: SimpleVector_copy_def GetSize_def GetCapacity_def ArrayPtr_new_ok std_move_eq)

section \<open>Reported capacity and allocated slots\<close>

text \<open>
  The growing branch of \<^verbatim>\<open>Resize\<close> in general: the new buffer has exactly \<open>n\<close> slots,
  whatever capacity is recorded; and an append into a container whose buffer is full
  while its recorded capacity is larger writes past the buffer.
\<close>

lemma Resize_grow_eq:
  assumes grow: "capacity_m v < n" and alloc: "n \<le> max_alloc"
    and inside: "size_m v \<le> length (array_m v)" and le: "size_m v \<le> n"
  shows "Resize z d n v =
    Inr \<lparr>array_m = take (size_m v) (array_m v) @ replicate (n - size_m v) d,
         size_m = n,
         capacity_m = max n ((capacity_m v * 2) mod SIZE_MOD)\<rparr>"
proof -
  have mv: "std_move (array_m v) 0 (size_m v) (replicate n z) 0 =
      Inr (take (size_m v) (array_m v) @ replicate (n - size_m v) z)"
    using inside le by (simp add: std_move_eq)
  have fl: "std_fill (take (size_m v) (array_m v) @ replicate (n - size_m v) z) (size_m v) n d =
      Inr (take (size_m v) (array_m v) @ replicate (n - size_m v) d)"
    using inside le by (simp add: std_fill_eq)
  show ?thesis
    using grow by (simp add: Resize_def ArrayPtr_new_ok [OF alloc] mv fl)
qed

lemma Resize_grow_allocated:
  assumes "capacity_m v < n" "n \<le> max_alloc" "size_m v \<le> length (array_m v)" "size_m v \<le> n"
    and "Resize z d n v = Inr v'"
  shows "allocated v' = n \<and> GetCapacity v' = max n ((capacity_m v * 2) mod SIZE_MOD)"
  using assms Resize_grow_eq [of v n z d]
  by (auto simp add: allocated_def GetCapacity_def)

lemma PushBack_overrun:
  assumes "size_m v = length (array_m v)" "size_m v < capacity_m v"
  shows "PushBack z x v = Inl buffer_overrun"
  using assms by (simp add: PushBack_def ArrayPtr_write_def)

text \<open>
  C1. The claim: in every container reachable through the public operations the
  reported capacity equals the number of slots really allocated, and size \<open>\<le>\<close> capacity.
  The growing branch of \<^verbatim>\<open>Resize\<close> allocates \<^verbatim>\<open>new_size\<close> slots and then stores
  \<^verbatim>\<open>max(new_size, capacity_ * 2)\<close> in \<^verbatim>\<open>capacity_\<close>. Evaluated on
  \<^verbatim>\<open>SimpleVector<int> v(4); v.Resize(5);\<close> the container reports capacity 8 and owns a
  buffer of 5 slots.
\<close>

theorem Resize_capacity_exceeds_allocation:
  "SimpleVector_size (7::int) 0 4 =
     Inr \<lparr>array_m = [0, 0, 0, 0], size_m = 4, capacity_m = 4\<rparr> \<and>
   Resize (7::int) 0 5 \<lparr>array_m = [0, 0, 0, 0], size_m = 4, capacity_m = 4\<rparr> =
     Inr \<lparr>array_m = [0, 0, 0, 0, 0], size_m = 5, capacity_m = 8\<rparr> \<and>
   GetCapacity \<lparr>array_m = [0, 0, 0, 0, 0::int], size_m = 5, capacity_m = 8\<rparr> = 8 \<and>
   allocated \<lparr>array_m = [0, 0, 0, 0, 0::int], size_m = 5, capacity_m = 8\<rparr> = 5"
proof -
  have a: "(4::nat) \<le> max_alloc" and b: "(5::nat) \<le> max_alloc"
    by (simp_all add: max_alloc_def)
  show ?thesis
    by (simp add: SimpleVector_size_def SimpleVector_fill_def Resize_def ArrayPtr_new_ok a b
        SIZE_MOD_def std_fill_eq std_move_eq replicate_numeral GetCapacity_def allocated_def)
qed

text \<open>
  C2. The claim: no public operation reads or writes a slot outside the owned buffer;
  \<^verbatim>\<open>PushBack\<close>, \<^verbatim>\<open>Insert\<close> and \<^verbatim>\<open>Resize\<close> write only below the allocated slot count.
  In the state that \<^verbatim>\<open>v.Resize(5)\<close> leaves above (5 slots, size 5, reported capacity 8)
  each of \<^verbatim>\<open>PushBack(1)\<close>, \<^verbatim>\<open>Insert(begin(), 1)\<close> and \<^verbatim>\<open>Resize(6)\<close> finds \<open>size < capacity\<close>,
  does not reallocate, and writes slot 5 of a 5-slot buffer.
\<close>

theorem write_outside_buffer_after_Resize:
  "Resize (7::int) 0 5 \<lparr>array_m = [0, 0, 0, 0], size_m = 4, capacity_m = 4\<rparr> =
     Inr \<lparr>array_m = [0, 0, 0, 0, 0], size_m = 5, capacity_m = 8\<rparr> \<and>
   PushBack (7::int) 1 \<lparr>array_m = [0, 0, 0, 0, 0], size_m = 5, capacity_m = 8\<rparr> =
     Inl buffer_overrun \<and>
   Insert (7::int) 0 1 \<lparr>array_m = [0, 0, 0, 0, 0], size_m = 5, capacity_m = 8\<rparr> =
     Inl buffer_overrun \<and>
   Resize (7::int) 0 6 \<lparr>array_m = [0, 0, 0, 0, 0], size_m = 5, capacity_m = 8\<rparr> =
     Inl buffer_overrun"
proof -
  have b: "(5::nat) \<le> max_alloc"
    by (simp add: max_alloc_def)
  have r: "Resize (7::int) 0 5 \<lparr>array_m = [0, 0, 0, 0], size_m = 4, capacity_m = 4\<rparr> =
     Inr \<lparr>array_m = [0, 0, 0, 0, 0], size_m = 5, capacity_m = 8\<rparr>"
    by (simp add: Resize_def ArrayPtr_new_ok b SIZE_MOD_def std_fill_eq std_move_eq
        replicate_numeral)
  have p: "PushBack (7::int) 1 \<lparr>array_m = [0, 0, 0, 0, 0], size_m = 5, capacity_m = 8\<rparr> =
     Inl buffer_overrun"
    by (simp add: PushBack_def ArrayPtr_write_def)
  have i: "Insert (7::int) 0 1 \<lparr>array_m = [0, 0, 0, 0, 0], size_m = 5, capacity_m = 8\<rparr> =
     Inl buffer_overrun"
    by (simp add: Insert_def SIZE_MOD_def std_move_backward_def move_backward_loop.simps)
  have s: "Resize (7::int) 0 6 \<lparr>array_m = [0, 0, 0, 0, 0], size_m = 5, capacity_m = 8\<rparr> =
     Inl buffer_overrun"
    by (simp add: Resize_def std_fill_def fill_loop.simps)
  show ?thesis using r p i s by simp
qed

text \<open>
  C4. The claim: for \<open>new_size\<close> above the capacity, \<^verbatim>\<open>Resize(new_size)\<close> reallocates to
  capacity \<open>max(new_size, capacity*2)\<close>, moves the elements in order, default-constructs
  the slots from the old size up to \<open>new_size\<close>, and the size becomes \<open>new_size\<close>.
  Evaluated on the full container \<open>[1, 2, 3, 4]\<close> with \<open>new_size = 5\<close>: the elements are
  moved in order, slot 4 is default-constructed, the size is 5 and the reported
  capacity is \<open>max 5 (4 * 2) = 8\<close>, but the storage the container was reallocated to has
  5 slots, not 8.
\<close>

theorem Resize_allocates_new_size_only:
  "Resize (7::int) 0 5 \<lparr>array_m = [1, 2, 3, 4], size_m = 4, capacity_m = 4\<rparr> =
     Inr \<lparr>array_m = [1, 2, 3, 4, 0], size_m = 5, capacity_m = 8\<rparr> \<and>
   max 5 (GetCapacity \<lparr>array_m = [1, 2, 3, 4::int], size_m = 4, capacity_m = 4\<rparr> * 2) = 8 \<and>
   allocated \<lparr>array_m = [1, 2, 3, 4, 0::int], size_m = 5, capacity_m = 8\<rparr> = 5"
proof -
  have b: "(5::nat) \<le> max_alloc"
    by (simp add: max_alloc_def)
  show ?thesis
    by (simp add: Resize_def ArrayPtr_new_ok b SIZE_MOD_def std_fill_eq std_move_eq
        replicate_numeral GetCapacity_def allocated_def)
qed

section \<open>Move assignment\<close>

text \<open>
  The right-hand side of a move assignment between two different objects is left as
  it was: \<^verbatim>\<open>tmp\<close> is copy-constructed from it and only \<^verbatim>\<open>*this\<close> is swapped.
\<close>

lemma move_assign_source_unchanged:
  "this \<noteq> rhs \<Longrightarrow> move_assign z h this rhs = Inr h' \<Longrightarrow> h' rhs = h rhs"
  by (auto simp add: move_assign_def split: sum.splits)

text \<open>
  C3. The claim: after \<^verbatim>\<open>b = std::move(a)\<close> the source has size 0 and capacity 0 and \<open>b\<close>
  holds the sequence, size and capacity that \<open>a\<close> held. Evaluated with \<open>b\<close> empty at
  address 0 and \<open>a = {1, 2, 3}\<close> at address 1: \<open>b\<close> receives \<open>[1, 2, 3]\<close> with size 3 and
  capacity 3, and \<open>a\<close> still has size 3, capacity 3 and its elements.
\<close>

theorem move_assign_leaves_source:
  "\<exists>h'. move_assign (7::int)
          ((\<lambda>k. SimpleVector_default)
             (1 := \<lparr>array_m = [1, 2, 3], size_m = 3, capacity_m = 3\<rparr>)) 0 1 = Inr h' \<and>
        elems (h' 0) = [1, 2, 3] \<and> GetSize (h' 0) = 3 \<and> GetCapacity (h' 0) = 3 \<and>
        elems (h' 1) = [1, 2, 3] \<and> GetSize (h' 1) = 3 \<and> GetCapacity (h' 1) = 3"
proof -
  have a: "(3::nat) \<le> max_alloc"
    by (simp add: max_alloc_def)
  show ?thesis
    by (simp add: move_assign_def SimpleVector_copy_def GetSize_def GetCapacity_def
        ArrayPtr_new_ok a std_move_eq swap_def SimpleVector_default_def elems_def)
qed

text \<open>
  C10. Self move assignment \<^verbatim>\<open>a = std::move(a)\<close> preserves the value: for every container
  \<open>a\<close> whose logical range lies inside its buffer and does not exceed its capacity
  (and whose capacity can be allocated once more for the temporary), the assignment
  returns, and afterwards \<open>a\<close> holds the same logical sequence, size and capacity;
  no other object of the store changes.
\<close>

theorem move_assign_self:
  assumes "GetSize (h a) \<le> allocated (h a)"
    and "GetSize (h a) \<le> GetCapacity (h a)"
    and "GetCapacity (h a) \<le> max_alloc"
  shows "\<exists>h'. move_assign z h a a = Inr h' \<and>
           elems (h' a) = elems (h a) \<and>
           GetSize (h' a) = GetSize (h a) \<and>
           GetCapacity (h' a) = GetCapacity (h a) \<and>
           (\<forall>k. k \<noteq> a \<longrightarrow> h' k = h k)"
proof -
  let ?v = "h a"
  have c: "SimpleVector_copy z ?v =
    Inr \<lparr>array_m = take (size_m ?v) (array_m ?v) @ replicate (capacity_m ?v - size_m ?v) z,
         size_m = size_m ?v, capacity_m = capacity_m ?v\<rparr>"
    using assms
    by (intro SimpleVector_copy_eq) (simp_all add: GetSize_def GetCapacity_def allocated_def)
  show ?thesis
    using assms
    by (simp add: move_assign_def c swap_def elems_def GetSize_def GetCapacity_def allocated_def)
qed

theorem move_assign_self_witness:
  "\<exists>h'. move_assign (7::int)
          ((\<lambda>k. SimpleVector_default)
             (0 := \<lparr>array_m = [1, 2, 3, 9], size_m = 3, capacity_m = 4\<rparr>)) 0 0 = Inr h' \<and>
        elems (h' 0) = [1, 2, 3] \<and> GetSize (h' 0) = 3 \<and> GetCapacity (h' 0) = 4 \<and>
        h' 1 = SimpleVector_default"
proof -
  let ?h = "(\<lambda>k. SimpleVector_default)
             (0 := \<lparr>array_m = [1, 2, 3, 9::int], size_m = 3, capacity_m = 4\<rparr>)"
  have a: "GetSize (?h 0) \<le> allocated (?h 0)"
    and b: "GetSize (?h 0) \<le> GetCapacity (?h 0)"
    and c: "GetCapacity (?h 0) \<le> max_alloc"
    by (simp_all add: GetSize_def GetCapacity_def allocated_def max_alloc_def)
  show ?thesis
    using move_assign_self [of ?h 0 7, OF a b c]
    by (auto simp add: GetSize_def GetCapacity_def elems_def)
qed

section \<open>Growth on append\<close>

text \<open>
  C5. For every container with capacity \<open>C\<close> whose size equals \<open>C\<close> (its logical range
  inside its buffer, and a buffer of \<open>max 1 (2 * C)\<close> slots obtainable), one \<^verbatim>\<open>PushBack\<close>
  returns with capacity exactly \<open>max 1 (2 * C)\<close>, a buffer of that many slots, and the
  previous elements in their order followed by the new one. Nothing is assumed about
  how the state was reached, so the law holds at every growth event.
\<close>

theorem PushBack_growth:
  assumes "GetSize v = GetCapacity v"
    and "GetSize v \<le> allocated v"
    and "max 1 (2 * GetCapacity v) \<le> max_alloc"
  shows "\<exists>v'. PushBack z x v = Inr v' \<and>
           GetCapacity v' = max 1 (2 * GetCapacity v) \<and>
           allocated v' = GetCapacity v' \<and>
           elems v' = elems v @ [x] \<and>
           GetSize v' = GetSize v + 1"
proof (cases v)
  case (fields a s c)
  define n where "n = max 1 (2 * c)"
  have sc: "s = c" and inside: "c \<le> length a" and alloc: "n \<le> max_alloc"
    using assms fields by (simp_all add: GetSize_def GetCapacity_def allocated_def n_def)
  have g: "grown_capacity c = n"
    using alloc unfolding n_def by (rule grown_capacity_eq)
  have lt: "c < n"
    by (simp add: n_def max_def)
  have e: "PushBack z x v =
    Inr \<lparr>array_m = take c a @ x # replicate (n - Suc c) z, size_m = Suc c, capacity_m = n\<rparr>"
    unfolding fields sc using g lt alloc inside by (rule PushBack_grow_eq)
  have len: "length (take c a @ x # replicate (n - Suc c) z) = n"
    using lt inside by simp
  show ?thesis
    unfolding e using inside len
    by (simp add: fields sc GetSize_def GetCapacity_def allocated_def elems_def n_def)
qed

theorem PushBack_growth_witness:
  "PushBack (7::int) 5 SimpleVector_default = Inr \<lparr>array_m = [5], size_m = 1, capacity_m = 1\<rparr> \<and>
   PushBack (7::int) 6 \<lparr>array_m = [5], size_m = 1, capacity_m = 1\<rparr> =
     Inr \<lparr>array_m = [5, 6], size_m = 2, capacity_m = 2\<rparr> \<and>
   (\<exists>v'. PushBack (7::int) 8 \<lparr>array_m = [5, 6], size_m = 2, capacity_m = 2\<rparr> = Inr v' \<and>
      GetCapacity v' = 4 \<and> allocated v' = 4 \<and> elems v' = [5, 6, 8] \<and> GetSize v' = 3)"
proof -
  have a: "max 1 (2 * GetCapacity \<lparr>array_m = [5, 6::int], size_m = 2, capacity_m = 2\<rparr>) \<le> max_alloc"
    by (simp add: GetCapacity_def max_alloc_def)
  have b: "Suc 0 \<le> max_alloc" "(2::nat) \<le> max_alloc"
    by (simp_all add: max_alloc_def)
  have p1: "PushBack (7::int) 5 SimpleVector_default = Inr \<lparr>array_m = [5], size_m = 1, capacity_m = 1\<rparr>"
    by (simp add: PushBack_def SimpleVector_default_def grown_capacity_def ArrayPtr_new_ok b
        std_move_eq ArrayPtr_write_def SIZE_MOD_def)
  have p2: "PushBack (7::int) 6 \<lparr>array_m = [5], size_m = 1, capacity_m = 1\<rparr> =
     Inr \<lparr>array_m = [5, 6], size_m = 2, capacity_m = 2\<rparr>"
    by (simp add: PushBack_def grown_capacity_def ArrayPtr_new_ok b
        std_move_eq ArrayPtr_write_def SIZE_MOD_def replicate_numeral)
  show ?thesis
    using PushBack_growth [of "\<lparr>array_m = [5, 6::int], size_m = 2, capacity_m = 2\<rparr>" 7 8, OF _ _ a] p1 p2
    by (auto simp add: GetSize_def GetCapacity_def allocated_def elems_def)
qed

section \<open>Insert followed by Erase\<close>

text \<open>
  What \<^verbatim>\<open>Insert\<close> computes on its reallocating and on its shifting path, and what
  \<^verbatim>\<open>Erase\<close> computes.
\<close>

lemma Insert_grow_eq:
  assumes g: "grown_capacity c = n" and lt: "c < n" and alloc: "n \<le> max_alloc"
    and inside: "c \<le> length a" and pos: "idx \<le> c"
  shows "Insert z idx x \<lparr>array_m = a, size_m = c, capacity_m = c\<rparr> =
    Inr (idx, \<lparr>array_m = take idx a @ x # drop idx (take c a) @ replicate (n - Suc c) z,
               size_m = Suc c, capacity_m = n\<rparr>)"
proof -
  have m1: "std_move a 0 idx (replicate n z) 0 = Inr (take idx a @ replicate (n - idx) z)"
    using inside lt pos by (simp add: std_move_eq)
  have wr: "ArrayPtr_write (take idx a @ replicate (n - idx) z) idx x =
      Inr (take idx a @ x # replicate (n - Suc idx) z)"
    using lt inside pos by (simp add: ArrayPtr_write_def list_update_append replicate_update_0)
  have len: "length (take idx a) = idx"
    using inside pos by simp
  have dr: "drop (Suc c - idx) (x # replicate (n - Suc idx) z) = replicate (n - Suc c) z"
    using pos by (simp add: Suc_diff_le)
  have m2: "std_move a idx c (take idx a @ x # replicate (n - Suc idx) z) (Suc idx) =
      Inr (take idx a @ x # drop idx (take c a) @ replicate (n - Suc c) z)"
    using inside lt pos len dr by (simp add: std_move_eq)
  have "Suc c \<le> max_alloc"
    using lt alloc by simp
  then have sz: "Suc c mod SIZE_MOD = Suc c"
    by (rule mod_SIZE_MOD_small)
  show ?thesis
    by (simp add: Insert_def g ArrayPtr_new_ok [OF alloc] m1 wr m2 sz)
qed

lemma Insert_shift_eq:
  assumes ne: "s \<noteq> c" and room: "s < length a" and buf: "length a \<le> max_alloc"
    and pos: "idx \<le> s"
  shows "Insert z idx x \<lparr>array_m = a, size_m = s, capacity_m = c\<rparr> =
    Inr (idx, \<lparr>array_m = take idx a @ x # drop idx (take s a) @ drop (Suc s) a,
               size_m = Suc s, capacity_m = c\<rparr>)"
proof -
  have "Suc s \<le> max_alloc"
    using room buf by simp
  then have sz: "Suc s mod SIZE_MOD = Suc s"
    by (rule mod_SIZE_MOD_small)
  have ix: "Suc s - (s - idx) = Suc idx"
    using pos by arith
  have mb: "std_move_backward a idx s (Suc s) =
      Inr (take (Suc idx) a @ drop idx (take s a) @ drop (Suc s) a)"
    using room pos by (simp add: std_move_backward_eq ix)
  have tk: "take (Suc idx) a = take idx a @ [a ! idx]"
    using room pos by (simp add: take_Suc_conv_app_nth)
  have len: "length (take idx a) = idx"
    using room pos by simp
  have wr: "ArrayPtr_write (take (Suc idx) a @ drop idx (take s a) @ drop (Suc s) a) idx x =
      Inr (take idx a @ x # drop idx (take s a) @ drop (Suc s) a)"
    using room pos len by (simp add: ArrayPtr_write_def tk list_update_append)
  show ?thesis
    using ne by (simp add: Insert_def sz mb wr)
qed

lemma SIZE_MOD_pos: "0 < SIZE_MOD"
  by (simp add: SIZE_MOD_def)

lemma Erase_eq:
  assumes pos: "idx \<le> t" and inside: "Suc t \<le> length b" and small: "t < SIZE_MOD"
  shows "Erase idx \<lparr>array_m = b, size_m = Suc t, capacity_m = c\<rparr> =
    Inr (idx, \<lparr>array_m = take idx b @ drop (Suc idx) (take (Suc t) b) @ drop t b,
               size_m = t, capacity_m = c\<rparr>)"
proof -
  have ix: "idx + (t - idx) = t"
    using pos by arith
  have mv: "std_move_self b (Suc idx) (Suc t) idx =
      Inr (take idx b @ drop (Suc idx) (take (Suc t) b) @ drop t b)"
    using pos inside std_move_self_eq [of "Suc idx" "Suc t" b idx] by (simp add: ix)
  have "Suc t + (SIZE_MOD - 1) = t + SIZE_MOD"
    using SIZE_MOD_pos by arith
  then have sz: "(Suc t + (SIZE_MOD - 1)) mod SIZE_MOD = t"
    using small by simp
  show ?thesis
    using sz by (simp add: Erase_def mv)
qed

lemma Erase_after_Insert:
  assumes pos: "idx \<le> s" and inside: "s \<le> length a" and small: "Suc s < SIZE_MOD"
  shows "\<exists>v2. Erase idx \<lparr>array_m = take idx a @ x # drop idx (take s a) @ rest,
                          size_m = Suc s, capacity_m = c\<rparr> = Inr (idx, v2) \<and>
              elems v2 = take s a \<and> size_m v2 = s"
proof -
  let ?b = "take idx a @ x # drop idx (take s a) @ rest"
  have len: "length (take idx a) = idx"
    using pos inside by simp
  have lb: "Suc s \<le> length ?b"
    using pos inside by simp
  have e: "Erase idx \<lparr>array_m = ?b, size_m = Suc s, capacity_m = c\<rparr> =
    Inr (idx, \<lparr>array_m = take idx ?b @ drop (Suc idx) (take (Suc s) ?b) @ drop s ?b,
               size_m = s, capacity_m = c\<rparr>)"
    using pos lb small by (intro Erase_eq) simp_all
  have t1: "take idx ?b = take idx a"
    using len by simp
  have l2: "length (drop idx (take s a)) = s - idx"
    using inside by simp
  have t2: "drop (Suc idx) (take (Suc s) ?b) = drop idx (take s a)"
    using len l2 pos by (simp add: Suc_diff_le)
  have j: "take idx a @ drop idx (take s a) = take s a"
    using pos append_take_drop_id [of idx "take s a"] by (simp add: min_def)
  have "take s (take idx ?b @ drop (Suc idx) (take (Suc s) ?b) @ drop s ?b) = take s a"
    unfolding t1 t2 using j inside
    by (metis append.assoc append_eq_conv_conj length_take min.absorb2)
  then show ?thesis
    unfolding e by (simp add: elems_def)
qed

text \<open>
  Where the container has room for one more element, insertion followed by erasure is
  the identity on the logical sequence: \<^verbatim>\<open>Insert(pos, x)\<close> returns the position it was
  given, with \<open>x\<close> placed before the elements from \<open>idx\<close> on, and \<^verbatim>\<open>Erase\<close> at the returned
  position returns and restores the original logical sequence and size. Room for one
  more element means: the logical range lies inside a buffer the owner can provide,
  and either the container is full (size \<open>=\<close> capacity) and a buffer of
  \<open>max 1 (2 * capacity)\<close> slots can be obtained, or its size is below the number of
  allocated slots. The last condition is not an invariant of the code: \<^verbatim>\<open>Resize\<close> can
  leave the size equal to the number of allocated slots and below the recorded capacity.
\<close>

lemma Erase_Insert_identity:
  assumes "idx \<le> GetSize v"
    and "GetSize v \<le> allocated v"
    and "allocated v \<le> max_alloc"
    and "GetSize v = GetCapacity v \<longrightarrow> max 1 (2 * GetCapacity v) \<le> max_alloc"
    and "GetSize v \<noteq> GetCapacity v \<longrightarrow> GetSize v < allocated v"
  shows "\<exists>p v1 v2. Insert z idx x v = Inr (p, v1) \<and> p = idx \<and>
           elems v1 = take idx (elems v) @ x # drop idx (elems v) \<and>
           Erase p v1 = Inr (p, v2) \<and>
           elems v2 = elems v \<and> GetSize v2 = GetSize v"
proof (cases v)
  case (fields a s c)
  have pos: "idx \<le> s" and inside: "s \<le> length a" and buf: "length a \<le> max_alloc"
    using assms fields by (simp_all add: GetSize_def allocated_def)
  have "\<exists>rest c'. Suc s \<le> max_alloc \<and> Insert z idx x v =
      Inr (idx, \<lparr>array_m = take idx a @ x # drop idx (take s a) @ rest,
                 size_m = Suc s, capacity_m = c'\<rparr>)"
  proof (cases "s = c")
    case True
    define n where "n = max 1 (2 * c)"
    have alloc: "n \<le> max_alloc"
      using assms(4) fields True by (simp add: GetSize_def GetCapacity_def n_def)
    have g: "grown_capacity c = n"
      using alloc unfolding n_def by (rule grown_capacity_eq)
    have lt: "c < n"
      by (simp add: n_def max_def)
    have "Insert z idx x v =
      Inr (idx, \<lparr>array_m = take idx a @ x # drop idx (take c a) @ replicate (n - Suc c) z,
                 size_m = Suc c, capacity_m = n\<rparr>)"
      unfolding fields True using g lt alloc inside pos unfolding True by (rule Insert_grow_eq)
    moreover have "Suc s \<le> max_alloc"
      using lt alloc True by simp
    ultimately show ?thesis
      using True by blast
  next
    case False
    have room: "s < length a"
      using assms(5) fields False by (simp add: GetSize_def GetCapacity_def allocated_def)
    have "Insert z idx x v =
      Inr (idx, \<lparr>array_m = take idx a @ x # drop idx (take s a) @ drop (Suc s) a,
                 size_m = Suc s, capacity_m = c\<rparr>)"
      unfolding fields using False room buf pos by (rule Insert_shift_eq)
    moreover have "Suc s \<le> max_alloc"
      using room buf by simp
    ultimately show ?thesis
      by blast
  qed
  then obtain rest c' where small: "Suc s \<le> max_alloc"
    and ins: "Insert z idx x v =
      Inr (idx, \<lparr>array_m = take idx a @ x # drop idx (take s a) @ rest,
                 size_m = Suc s, capacity_m = c'\<rparr>)"
    by blast
  let ?v1 = "\<lparr>array_m = take idx a @ x # drop idx (take s a) @ rest,
             size_m = Suc s, capacity_m = c'\<rparr>"
  have len: "length (take idx a) = idx"
    using pos inside by simp
  have l2: "length (drop idx (take s a)) = s - idx"
    using inside by simp
  have e1: "elems ?v1 = take idx (take s a) @ x # drop idx (take s a)"
    using len l2 pos inside by (simp add: elems_def min_def Suc_diff_le)
  obtain v2 where er: "Erase idx ?v1 = Inr (idx, v2)" and e2: "elems v2 = take s a"
    and s2: "size_m v2 = s"
    using Erase_after_Insert [OF pos inside max_alloc_less_SIZE_MOD [OF small], of x rest c']
    by blast
  show ?thesis
    using ins e1 er e2 s2 by (simp add: fields elems_def GetSize_def)
qed

lemma Erase_Insert_identity_example:
  "(\<exists>p v1 v2. Insert (7::int) 1 9 \<lparr>array_m = [1, 2, 3, 0], size_m = 3, capacity_m = 4\<rparr> =
        Inr (p, v1) \<and> p = 1 \<and> elems v1 = [1, 9, 2, 3] \<and>
      Erase p v1 = Inr (p, v2) \<and> elems v2 = [1, 2, 3] \<and> GetSize v2 = 3) \<and>
   (\<exists>p v1 v2. Insert (7::int) 2 9 \<lparr>array_m = [1, 2], size_m = 2, capacity_m = 2\<rparr> =
        Inr (p, v1) \<and> p = 2 \<and> elems v1 = [1, 2, 9] \<and>
      Erase p v1 = Inr (p, v2) \<and> elems v2 = [1, 2] \<and> GetSize v2 = 2)"
proof -
  let ?v = "\<lparr>array_m = [1, 2, 3, 0::int], size_m = 3, capacity_m = 4\<rparr>"
  let ?w = "\<lparr>array_m = [1, 2::int], size_m = 2, capacity_m = 2\<rparr>"
  have v: "1 \<le> GetSize ?v" "GetSize ?v \<le> allocated ?v" "allocated ?v \<le> max_alloc"
    "GetSize ?v = GetCapacity ?v \<longrightarrow> max 1 (2 * GetCapacity ?v) \<le> max_alloc"
    "GetSize ?v \<noteq> GetCapacity ?v \<longrightarrow> GetSize ?v < allocated ?v"
    by (simp_all add: GetSize_def GetCapacity_def allocated_def max_alloc_def)
  have w: "2 \<le> GetSize ?w" "GetSize ?w \<le> allocated ?w" "allocated ?w \<le> max_alloc"
    "GetSize ?w = GetCapacity ?w \<longrightarrow> max 1 (2 * GetCapacity ?w) \<le> max_alloc"
    "GetSize ?w \<noteq> GetCapacity ?w \<longrightarrow> GetSize ?w < allocated ?w"
    by (simp_all add: GetSize_def GetCapacity_def allocated_def max_alloc_def)
  have a: "\<exists>p v1 v2. Insert (7::int) 1 9 ?v = Inr (p, v1) \<and> p = 1 \<and> elems v1 = [1, 9, 2, 3] \<and>
      Erase p v1 = Inr (p, v2) \<and> elems v2 = [1, 2, 3] \<and> GetSize v2 = 3"
    using Erase_Insert_identity [of 1 ?v 7 9, OF v]
    by (simp add: elems_def GetSize_def)
  have b: "\<exists>p v1 v2. Insert (7::int) 2 9 ?w = Inr (p, v1) \<and> p = 2 \<and> elems v1 = [1, 2, 9] \<and>
      Erase p v1 = Inr (p, v2) \<and> elems v2 = [1, 2] \<and> GetSize v2 = 2"
    using Erase_Insert_identity [of 2 ?w 7 9, OF w]
    by (simp add: elems_def GetSize_def)
  show ?thesis
    using a b by blast
qed

text \<open>
  C8. The claim: for every container, every valid position and every value, \<^verbatim>\<open>Erase\<close>
  applied at the iterator returned by \<^verbatim>\<open>Insert(pos, v)\<close> restores the original logical
  sequence. Evaluated on \<^verbatim>\<open>SimpleVector<int> v(4); v.Resize(5);\<close>, which leaves 5 slots,
  size 5 and recorded capacity 8: \<^verbatim>\<open>Insert\<close> finds \<open>size < capacity\<close>, takes its shifting
  branch and writes slot 5 of the 5-slot buffer, at the first position, at a middle
  position and at \<^verbatim>\<open>end()\<close> alike. There is no iterator to erase at and no sequence to
  compare.
\<close>

theorem Insert_overruns_after_Resize:
  "SimpleVector_size (7::int) 0 4 =
     Inr \<lparr>array_m = [0, 0, 0, 0], size_m = 4, capacity_m = 4\<rparr> \<and>
   Resize (7::int) 0 5 \<lparr>array_m = [0, 0, 0, 0], size_m = 4, capacity_m = 4\<rparr> =
     Inr \<lparr>array_m = [0, 0, 0, 0, 0], size_m = 5, capacity_m = 8\<rparr> \<and>
   Insert (7::int) 0 9 \<lparr>array_m = [0, 0, 0, 0, 0], size_m = 5, capacity_m = 8\<rparr> =
     Inl buffer_overrun \<and>
   Insert (7::int) 2 9 \<lparr>array_m = [0, 0, 0, 0, 0], size_m = 5, capacity_m = 8\<rparr> =
     Inl buffer_overrun \<and>
   Insert (7::int) 5 9 \<lparr>array_m = [0, 0, 0, 0, 0], size_m = 5, capacity_m = 8\<rparr> =
     Inl buffer_overrun"
proof -
  have a: "(4::nat) \<le> max_alloc" and b: "(5::nat) \<le> max_alloc"
    by (simp_all add: max_alloc_def)
  have c: "SimpleVector_size (7::int) 0 4 =
     Inr \<lparr>array_m = [0, 0, 0, 0], size_m = 4, capacity_m = 4\<rparr>"
    by (simp add: SimpleVector_size_def SimpleVector_fill_def ArrayPtr_new_ok a std_fill_eq
        replicate_numeral)
  have r: "Resize (7::int) 0 5 \<lparr>array_m = [0, 0, 0, 0], size_m = 4, capacity_m = 4\<rparr> =
     Inr \<lparr>array_m = [0, 0, 0, 0, 0], size_m = 5, capacity_m = 8\<rparr>"
    by (simp add: Resize_def ArrayPtr_new_ok b SIZE_MOD_def std_fill_eq std_move_eq
        replicate_numeral)
  have i0: "Insert (7::int) 0 9 \<lparr>array_m = [0, 0, 0, 0, 0], size_m = 5, capacity_m = 8\<rparr> =
     Inl buffer_overrun"
    by (simp add: Insert_def SIZE_MOD_def std_move_backward_def move_backward_loop.simps)
  have i2: "Insert (7::int) 2 9 \<lparr>array_m = [0, 0, 0, 0, 0], size_m = 5, capacity_m = 8\<rparr> =
     Inl buffer_overrun"
    by (simp add: Insert_def SIZE_MOD_def std_move_backward_def move_backward_loop.simps)
  have i5: "Insert (7::int) 5 9 \<lparr>array_m = [0, 0, 0, 0, 0], size_m = 5, capacity_m = 8\<rparr> =
     Inl buffer_overrun"
    by (simp add: Insert_def SIZE_MOD_def std_move_backward_def move_backward_loop.simps
        ArrayPtr_write_def)
  show ?thesis using c r i0 i2 i5 by simp
qed

section \<open>Comparison\<close>

text \<open>
  On logical ranges that lie inside their buffers, \<^verbatim>\<open>std::equal\<close> decides equality of
  the two sequences and \<^verbatim>\<open>std::lexicographical_compare\<close> decides the lexicographic
  order \<open>lexord\<close> induced by \<open><\<close> on the elements.
\<close>

lemma drop_take_Cons:
  "first < last' \<Longrightarrow> last' \<le> length xs \<Longrightarrow>
   drop first (take last' xs) = xs ! first # drop (Suc first) (take last' xs)"
  using Cons_nth_drop_Suc [of first "take last' xs"] by simp

lemma drop_take_Nil: "last' \<le> first \<Longrightarrow> drop first (take last' xs) = []"
  by simp

lemma equal_loop_eq:
  "first1 \<le> last1 \<Longrightarrow> last1 \<le> length a \<Longrightarrow> first2 + (last1 - first1) \<le> length b \<Longrightarrow>
   equal_loop a first1 last1 b first2 =
     Inr (drop first1 (take last1 a) = drop first2 (take (first2 + (last1 - first1)) b))"
proof (induction a first1 last1 b first2 rule: equal_loop.induct)
  case (1 a first1 last1 b first2)
  show ?case
  proof (cases "last1 \<le> first1")
    case True
    then show ?thesis by (simp add: equal_loop.simps)
  next
    case False
    then have lt: "first1 < last1" by simp
    with "1.prems" have fa: "first1 < length a" and fb: "first2 < length b" by simp_all
    let ?l2 = "first2 + (last1 - first1)"
    have ca: "drop first1 (take last1 a) = a ! first1 # drop (Suc first1) (take last1 a)"
      using lt "1.prems" by (intro drop_take_Cons) simp_all
    have cb: "drop first2 (take ?l2 b) = b ! first2 # drop (Suc first2) (take ?l2 b)"
      using lt "1.prems" by (intro drop_take_Cons) simp_all
    have ix: "first2 + 1 + (last1 - (first1 + 1)) = ?l2"
      using lt by arith
    show ?thesis
    proof (cases "a ! first1 = b ! first2")
      case True
      have "equal_loop a first1 last1 b first2 = equal_loop a (first1 + 1) last1 b (first2 + 1)"
        using False fa fb True by (subst equal_loop.simps) simp
      also have "\<dots> = Inr (drop (first1 + 1) (take last1 a) =
                            drop (first2 + 1) (take (first2 + 1 + (last1 - (first1 + 1))) b))"
        using "1.IH" False fa fb True "1.prems" lt by simp
      finally show ?thesis
        unfolding ix ca cb using True by simp
    next
      case ne: False
      have "equal_loop a first1 last1 b first2 = Inr False"
        using False fa fb ne by (subst equal_loop.simps) simp
      then show ?thesis
        unfolding ca cb using ne by simp
    qed
  qed
qed

lemma lexicographical_compare_loop_eq:
  fixes a b :: "('a::linorder) list"
  shows "first1 \<le> last1 \<Longrightarrow> last1 \<le> length a \<Longrightarrow> first2 \<le> last2 \<Longrightarrow> last2 \<le> length b \<Longrightarrow>
   lexicographical_compare_loop a first1 last1 b first2 last2 =
     Inr ((drop first1 (take last1 a), drop first2 (take last2 b)) \<in> lexord {(x, y). x < y})"
proof (induction a first1 last1 b first2 last2 rule: lexicographical_compare_loop.induct)
  case (1 a first1 last1 b first2 last2)
  show ?case
  proof (cases "last1 \<le> first1 \<or> last2 \<le> first2")
    case True
    have r: "lexicographical_compare_loop a first1 last1 b first2 last2 =
        Inr (last1 \<le> first1 \<and> first2 < last2)"
      using True by (subst lexicographical_compare_loop.simps) simp
    show ?thesis
    proof (cases "last1 \<le> first1")
      case True
      then have xs: "drop first1 (take last1 a) = []" by simp
      have "(drop first2 (take last2 b) \<noteq> []) = (first2 < last2)"
        using "1.prems" by auto
      then have "(\<exists>y ys. drop first2 (take last2 b) = y # ys) = (first2 < last2)"
        unfolding neq_Nil_conv .
      then show ?thesis
        unfolding r xs using True by (simp only: lexord_Nil_left) simp
    next
      case False
      with True have "last2 \<le> first2" by simp
      then have ys: "drop first2 (take last2 b) = []" by simp
      show ?thesis
        unfolding r ys using False by simp
    qed
  next
    case False
    then have lt1: "first1 < last1" and lt2: "first2 < last2" by simp_all
    with "1.prems" have fa: "first1 < length a" and fb: "first2 < length b" by simp_all
    have ca: "drop first1 (take last1 a) = a ! first1 # drop (Suc first1) (take last1 a)"
      using lt1 "1.prems" by (intro drop_take_Cons) simp_all
    have cb: "drop first2 (take last2 b) = b ! first2 # drop (Suc first2) (take last2 b)"
      using lt2 "1.prems" by (intro drop_take_Cons) simp_all
    consider (less) "a ! first1 < b ! first2" | (greater) "b ! first2 < a ! first1"
      | (same) "a ! first1 = b ! first2"
      by (rule linorder_cases [of "a ! first1" "b ! first2"]) auto
    then show ?thesis
    proof cases
      case less
      have "lexicographical_compare_loop a first1 last1 b first2 last2 = Inr True"
        using False fa fb less by (subst lexicographical_compare_loop.simps) simp
      then show ?thesis
        unfolding ca cb using less by simp
    next
      case greater
      then have n: "\<not> a ! first1 < b ! first2" and ne: "a ! first1 \<noteq> b ! first2" by auto
      have "lexicographical_compare_loop a first1 last1 b first2 last2 = Inr False"
        using False fa fb greater n by (subst lexicographical_compare_loop.simps) simp
      then show ?thesis
        unfolding ca cb using n ne by simp
    next
      case same
      then have n1: "\<not> a ! first1 < b ! first2" and n2: "\<not> b ! first2 < a ! first1" by auto
      have "lexicographical_compare_loop a first1 last1 b first2 last2 =
          lexicographical_compare_loop a (first1 + 1) last1 b (first2 + 1) last2"
        using False fa fb n1 n2 by (subst lexicographical_compare_loop.simps) simp
      also have "\<dots> = Inr ((drop (first1 + 1) (take last1 a), drop (first2 + 1) (take last2 b))
                              \<in> lexord {(x, y). x < y})"
        using "1.IH" False fa fb n1 n2 "1.prems" lt1 lt2 by simp
      finally show ?thesis
        unfolding ca cb using same by simp
    qed
  qed
qed

lemma operator_eq_elems:
  assumes "size_m a \<le> length (array_m a)" "size_m b \<le> length (array_m b)"
  shows "operator_eq a b = Inr (elems a = elems b)"
proof (cases "size_m a = size_m b")
  case True
  then show ?thesis
    using assms equal_loop_eq [of 0 "size_m a" "array_m a" 0 "array_m b"]
    by (simp add: operator_eq_def std_equal_def elems_def)
next
  case False
  have "length (elems a) \<noteq> length (elems b)"
    using False assms by (simp add: elems_def)
  then have "elems a \<noteq> elems b" by auto
  then show ?thesis
    using False by (simp add: operator_eq_def std_equal_def)
qed

lemma operator_lt_elems:
  fixes a b :: "('a::linorder) SimpleVector"
  assumes "size_m a \<le> length (array_m a)" "size_m b \<le> length (array_m b)"
  shows "operator_lt a b = Inr ((elems a, elems b) \<in> lexord {(x, y). x < y})"
  using assms lexicographical_compare_loop_eq [of 0 "size_m a" "array_m a" 0 "size_m b" "array_m b"]
  by (simp add: operator_lt_def std_lexicographical_compare_def elems_def)

text \<open>
  C9. For every pair of containers (each with its logical range inside its buffer,
  over a linearly ordered element type): \<^verbatim>\<open>==\<close> is equality of the logical sequences,
  \<^verbatim>\<open>!=\<close> its negation, \<^verbatim>\<open><\<close> the standard lexicographic order of the logical sequences,
  \<^verbatim>\<open>>\<close> the same order with the operands exchanged, \<^verbatim>\<open><=\<close> holds exactly when \<^verbatim>\<open><\<close> or
  \<^verbatim>\<open>==\<close> holds, \<^verbatim>\<open>>=\<close> exactly when \<^verbatim>\<open>>\<close> or \<^verbatim>\<open>==\<close> holds, and a strict prefix compares
  less. The examples of the claim, \<open>{1,2} < {1,2,3}\<close>, \<open>{1,2,3} < {1,3}\<close>, \<open>{} < {1}\<close> and
  \<open>{1,2} == {1,2}\<close>, are instances.
\<close>

theorem relational_operators:
  fixes a b :: "('a::linorder) SimpleVector"
  assumes "GetSize a \<le> allocated a" and "GetSize b \<le> allocated b"
  shows "operator_eq a b = Inr (elems a = elems b) \<and>
         operator_ne a b = Inr (elems a \<noteq> elems b) \<and>
         operator_lt a b = Inr ((elems a, elems b) \<in> lexord {(x, y). x < y}) \<and>
         operator_le a b = Inr ((elems a, elems b) \<in> lexord {(x, y). x < y} \<or> elems a = elems b) \<and>
         operator_gt a b = Inr ((elems b, elems a) \<in> lexord {(x, y). x < y}) \<and>
         operator_ge a b = Inr ((elems b, elems a) \<in> lexord {(x, y). x < y} \<or> elems a = elems b) \<and>
         (\<forall>y ys. elems b = elems a @ y # ys \<longrightarrow> operator_lt a b = Inr True)"
proof -
  have sa: "size_m a \<le> length (array_m a)" and sb: "size_m b \<le> length (array_m b)"
    using assms by (simp_all add: GetSize_def allocated_def)
  have eq: "operator_eq a b = Inr (elems a = elems b)"
    using sa sb by (rule operator_eq_elems)
  have lt: "operator_lt a b = Inr ((elems a, elems b) \<in> lexord {(x, y). x < y})"
    using sa sb by (rule operator_lt_elems)
  have gt: "operator_lt b a = Inr ((elems b, elems a) \<in> lexord {(x, y). x < y})"
    using sb sa by (rule operator_lt_elems)
  have pre: "\<forall>y ys. elems b = elems a @ y # ys \<longrightarrow> operator_lt a b = Inr True"
    by (simp add: lt lexord_append_rightI)
  show ?thesis
    using pre by (simp add: eq lt gt operator_ne_def operator_le_def operator_gt_def operator_ge_def)
qed

theorem relational_operators_witness:
  "operator_lt \<lparr>array_m = [1, 2::int], size_m = 2, capacity_m = 2\<rparr>
               \<lparr>array_m = [1, 2, 3], size_m = 3, capacity_m = 3\<rparr> = Inr True \<and>
   operator_lt \<lparr>array_m = [1, 2, 3::int], size_m = 3, capacity_m = 3\<rparr>
               \<lparr>array_m = [1, 3], size_m = 2, capacity_m = 2\<rparr> = Inr True \<and>
   operator_lt \<lparr>array_m = [], size_m = 0, capacity_m = 0\<rparr>
               \<lparr>array_m = [1::int], size_m = 1, capacity_m = 1\<rparr> = Inr True \<and>
   operator_eq \<lparr>array_m = [1, 2::int], size_m = 2, capacity_m = 2\<rparr>
               \<lparr>array_m = [1, 2], size_m = 2, capacity_m = 2\<rparr> = Inr True \<and>
   operator_ge \<lparr>array_m = [1, 2::int], size_m = 2, capacity_m = 2\<rparr>
               \<lparr>array_m = [1, 2, 3], size_m = 3, capacity_m = 3\<rparr> = Inr False"
  using relational_operators [of "\<lparr>array_m = [1, 2::int], size_m = 2, capacity_m = 2\<rparr>"
          "\<lparr>array_m = [1, 2, 3], size_m = 3, capacity_m = 3\<rparr>"]
    relational_operators [of "\<lparr>array_m = [1, 2, 3::int], size_m = 3, capacity_m = 3\<rparr>"
          "\<lparr>array_m = [1, 3], size_m = 2, capacity_m = 2\<rparr>"]
    relational_operators [of "\<lparr>array_m = [], size_m = 0, capacity_m = 0\<rparr>"
          "\<lparr>array_m = [1::int], size_m = 1, capacity_m = 1\<rparr>"]
    relational_operators [of "\<lparr>array_m = [1, 2::int], size_m = 2, capacity_m = 2\<rparr>"
          "\<lparr>array_m = [1, 2], size_m = 2, capacity_m = 2\<rparr>"]
  by (simp add: GetSize_def allocated_def elems_def)

end
